theory Spec2Isabelle
  imports Main "HOL-Library.Sublist"
begin

section \<open>Data model of \<open>prow/pjutil/filter.go\<close>\<close>

text \<open>
  A Go \<open>error\<close> value. \<open>ErrorString\<close> is an error created outside this package;
  \<open>WrapError msg inner\<close> is the value of \<open>fmt.Errorf\<close> with a \<open>%w\<close> verb: its
  message is \<open>msg\<close> and \<open>Unwrap\<close> gives \<open>inner\<close>. A returned \<open>error\<close> is an
  \<open>error option\<close>, with \<open>None\<close> for \<open>nil\<close>.
\<close>

datatype error = ErrorString string | WrapError string error

fun Error :: "error \<Rightarrow> string" where
  "Error (ErrorString s) = s"
| "Error (WrapError s inner) = s"

fun Unwrap :: "error \<Rightarrow> error option" where
  "Unwrap (ErrorString s) = None"
| "Unwrap (WrapError s inner) = Some inner"

text \<open>
  \<open>config.Presubmit\<close> is declared in another package. The fields read here are
  \<open>Name\<close>, \<open>Context\<close>, \<open>RerunCommand\<close> and \<open>Optional\<close>. Its three methods called
  here are taken as parameters carried by the value: \<open>TriggerMatches\<close> (a function of the
  comment body), \<open>NeedsExplicitTrigger\<close> (no argument) and \<open>ShouldRun\<close>, which
  receives the branch, the changed-files provider (of an abstract type \<open>'c\<close>), and the
  flags \<open>forced\<close> and \<open>defaults\<close>, and returns the Go pair \<open>(bool, error)\<close>.
\<close>

record 'c Presubmit =
  Name :: string
  Context :: string
  RerunCommand :: string
  Optional :: bool
  TriggerMatches :: "string \<Rightarrow> bool"
  NeedsExplicitTrigger :: bool
  ShouldRun :: "string \<Rightarrow> 'c \<Rightarrow> bool \<Rightarrow> bool \<Rightarrow> bool \<times> error option"

text \<open>
  \<open>type Filter func(p config.Presubmit) (shouldRun bool, forcedToRun bool, defaultBehavior bool)\<close>
\<close>

type_synonym 'c Filter = "'c Presubmit \<Rightarrow> bool \<times> bool \<times> bool"

section \<open>The filters\<close>

definition CommandFilter :: "string \<Rightarrow> 'c Filter" where
  "CommandFilter body = (\<lambda>p. (TriggerMatches p body, TriggerMatches p body, True))"

definition TestAllFilter :: "'c Filter" where
  "TestAllFilter = (\<lambda>p. (\<not> NeedsExplicitTrigger p, False, False))"

text \<open>The \<open>for ... range filters\<close> loop of \<open>AggregateFilter\<close>, as recursion on the slice.\<close>

fun AggregateFilter :: "'c Filter list \<Rightarrow> 'c Filter" where
  "AggregateFilter [] presubmit = (False, False, False)"
| "AggregateFilter (filter1 # filters) presubmit =
     (case filter1 presubmit of
        (shouldRun, forced, defaults) \<Rightarrow>
          if shouldRun then (shouldRun, forced, defaults)
          else AggregateFilter filters presubmit)"

text \<open>\<open>sets.String\<close> is a set of strings; \<open>Has\<close> is membership.\<close>

definition RetestFilter :: "string set \<Rightarrow> string set \<Rightarrow> 'c Filter" where
  "RetestFilter failedContexts allContexts =
     (\<lambda>p. let failed = (Context p \<in> failedContexts)
          in (failed \<or> (\<not> NeedsExplicitTrigger p \<and> \<not> (Context p \<in> allContexts)),
              False, failed))"

definition RetestRequiredFilter :: "string set \<Rightarrow> string set \<Rightarrow> 'c Filter" where
  "RetestRequiredFilter failedContext allContexts =
     (\<lambda>ps. if Optional ps then (False, False, False)
           else RetestFilter failedContext allContexts ps)"

section \<open>The evaluator\<close>

text \<open>
  The \<open>logrus\<close> logger is an argument whose only effect is the entries written to it:
  a logger is the list of its entries, oldest first. An entry has a level, the fields
  given with \<open>WithFields\<close> (in the order of the source) and the message. The counts are
  Go \<open>int\<close>s bounded by the length of the input slice, so they never wrap around.
\<close>

datatype log_level = DebugLevel | InfoLevel

datatype field_value = Strings "string list" | Count nat

datatype log_entry = Entry log_level "(string \<times> field_value) list" string

type_synonym logger = "log_entry list"

text \<open>The local variables of \<open>FilterPresubmits\<close> that its loop updates.\<close>

record 'c scan =
  toTrigger :: "'c Presubmit list"
  namesToTrigger :: "string list"
  noMatch :: nat
  shouldnotRun :: nat

text \<open>\<open>fmt.Errorf("%s: should run: %w", presubmit.Name, err)\<close>\<close>

definition Errorf_should_run :: "string \<Rightarrow> error \<Rightarrow> error" where
  "Errorf_should_run name err = WrapError (name @ '': should run: '' @ Error err) err"

text \<open>
  The loop of \<open>FilterPresubmits\<close> over the remaining presubmits: \<open>continue\<close> is the
  recursive call, the \<open>return nil, fmt.Errorf(...)\<close> inside the loop ends it with the
  error.
\<close>

fun FilterPresubmits_loop ::
  "'c Filter \<Rightarrow> 'c \<Rightarrow> string \<Rightarrow> 'c Presubmit list \<Rightarrow> 'c scan \<Rightarrow> 'c scan \<times> error option" where
  "FilterPresubmits_loop filter1 changes branch [] st = (st, None)"
| "FilterPresubmits_loop filter1 changes branch (presubmit # presubmits) st =
     (case filter1 presubmit of
        (matches, forced, defaults) \<Rightarrow>
          if \<not> matches then
            FilterPresubmits_loop filter1 changes branch presubmits
              (st\<lparr>noMatch := noMatch st + 1\<rparr>)
          else
            (case ShouldRun presubmit branch changes forced defaults of
               (shouldRun, err) \<Rightarrow>
                 (case err of
                    Some e \<Rightarrow> (st, Some (Errorf_should_run (Name presubmit) e))
                  | None \<Rightarrow>
                      if \<not> shouldRun then
                        FilterPresubmits_loop filter1 changes branch presubmits
                          (st\<lparr>shouldnotRun := shouldnotRun st + 1\<rparr>)
                      else
                        FilterPresubmits_loop filter1 changes branch presubmits
                          (st\<lparr>toTrigger := toTrigger st @ [presubmit],
                              namesToTrigger := namesToTrigger st @ [Name presubmit]\<rparr>))))"

definition FilterPresubmits ::
  "'c Filter \<Rightarrow> 'c \<Rightarrow> string \<Rightarrow> 'c Presubmit list \<Rightarrow> logger \<Rightarrow>
   ('c Presubmit list \<times> error option) \<times> logger" where
  "FilterPresubmits filter1 changes branch presubmits logger =
     (case FilterPresubmits_loop filter1 changes branch presubmits
             \<lparr>toTrigger = [], namesToTrigger = [], noMatch = 0, shouldnotRun = 0\<rparr> of
        (st, Some e) \<Rightarrow> (([], Some e), logger)
      | (st, None) \<Rightarrow>
          ((toTrigger st, None),
           logger @
           [Entry DebugLevel
              [(''to-trigger'', Strings (namesToTrigger st)),
               (''total-count'', Count (length presubmits)),
               (''to-trigger-count'', Count (length (toTrigger st))),
               (''no-match-count'', Count (noMatch st)),
               (''should-not-run-count'', Count (shouldnotRun st))]
              ''Filtered complete.'']))"

text \<open>
  The call \<open>presubmit.ShouldRun(branch, changes, forced, defaults)\<close> that the loop makes
  for a presubmit, with the flags the filter gave, and the three outcomes of a matched
  presubmit: the call fails, it answers yes, it answers no.
\<close>

definition verdict :: "'c Filter \<Rightarrow> 'c \<Rightarrow> string \<Rightarrow> 'c Presubmit \<Rightarrow> bool \<times> error option" where
  "verdict filter1 changes branch presubmit =
     (case filter1 presubmit of
        (matches, forced, defaults) \<Rightarrow> ShouldRun presubmit branch changes forced defaults)"

definition oracle_fails :: "'c Filter \<Rightarrow> 'c \<Rightarrow> string \<Rightarrow> 'c Presubmit \<Rightarrow> bool" where
  "oracle_fails filter1 changes branch presubmit =
     (fst (filter1 presubmit) \<and> snd (verdict filter1 changes branch presubmit) \<noteq> None)"

definition triggers :: "'c Filter \<Rightarrow> 'c \<Rightarrow> string \<Rightarrow> 'c Presubmit \<Rightarrow> bool" where
  "triggers filter1 changes branch presubmit =
     (fst (filter1 presubmit) \<and> fst (verdict filter1 changes branch presubmit))"

definition declined :: "'c Filter \<Rightarrow> 'c \<Rightarrow> string \<Rightarrow> 'c Presubmit \<Rightarrow> bool" where
  "declined filter1 changes branch presubmit =
     (fst (filter1 presubmit) \<and> \<not> fst (verdict filter1 changes branch presubmit))"

section \<open>The regular expressions\<close>

text \<open>
  Go's \<open>regexp\<close> package is not part of this repository. The four patterns are built
  from the operators below, with the meaning the package documents for them under the
  flag \<open>(?m)\<close>: \<open>BeginLine\<close> (\<open>^\<close>) holds at the start of the text and after a newline,
  \<open>EndLine\<close> (\<open>$\<close>) at the end of the text and before a newline, \<open>AnyCharNotNL\<close>
  (\<open>.\<close>) is any character but newline. A position in the text is the character before
  it (\<open>None\<close> at the start) with the text that remains. The patterns are ASCII and the
  newline is one byte, so matching bytes and matching UTF-8 runes agree on whether a
  match exists.
\<close>

datatype regexp =
    Literal string
  | CharClass "char list"
  | AnyCharNotNL
  | BeginLine
  | EndLine
  | Concat regexp regexp
  | Alternate regexp regexp
  | Star regexp
  | Quest regexp

type_synonym position = "char option \<times> string"

definition newline :: char where
  "newline = CHR 0x0A"

text \<open>\<open>\s\<close> is \<open>[\t\n\f\r ]\<close>.\<close>

definition whitespace :: "char list" where
  "whitespace = [CHR 0x09, CHR 0x0A, CHR 0x0C, CHR 0x0D, CHR 0x20]"

text \<open>
  \<open>star_iter n step pos\<close>: the positions reached from \<open>pos\<close> by at most \<open>n\<close> rounds of
  \<open>step\<close>, each round consuming at least one character (a round that consumes nothing
  reaches no new position).
\<close>

fun star_iter :: "nat \<Rightarrow> (position \<Rightarrow> position list) \<Rightarrow> position \<Rightarrow> position list" where
  "star_iter 0 step pos = [pos]"
| "star_iter (Suc n) step pos =
     pos # concat (map (star_iter n step)
                     (filter (\<lambda>pos'. length (snd pos') < length (snd pos)) (step pos)))"

text \<open>\<open>run re pos\<close>: the positions at which a match of \<open>re\<close> that starts at \<open>pos\<close> can end.\<close>

primrec run :: "regexp \<Rightarrow> position \<Rightarrow> position list" where
  "run (Literal s) =
     (\<lambda>(prev, rest). if prefix s rest
        then [(if s = [] then prev else Some (last s), drop (length s) rest)] else [])"
| "run (CharClass cs) =
     (\<lambda>(prev, rest). case rest of [] \<Rightarrow> []
        | c # rest' \<Rightarrow> if c \<in> set cs then [(Some c, rest')] else [])"
| "run AnyCharNotNL =
     (\<lambda>(prev, rest). case rest of [] \<Rightarrow> []
        | c # rest' \<Rightarrow> if c \<noteq> newline then [(Some c, rest')] else [])"
| "run BeginLine =
     (\<lambda>(prev, rest). if prev = None \<or> prev = Some newline then [(prev, rest)] else [])"
| "run EndLine =
     (\<lambda>(prev, rest). case rest of [] \<Rightarrow> [(prev, rest)]
        | c # rest' \<Rightarrow> if c = newline then [(prev, rest)] else [])"
| "run (Concat a b) = (\<lambda>pos. concat (map (run b) (run a pos)))"
| "run (Alternate a b) = (\<lambda>pos. run a pos @ run b pos)"
| "run (Star a) = (\<lambda>pos. star_iter (length (snd pos)) (run a) pos)"
| "run (Quest a) = (\<lambda>pos. run a pos @ [pos])"

text \<open>\<open>MatchString\<close>: is there a match starting anywhere in the text?\<close>

fun search :: "regexp \<Rightarrow> char option \<Rightarrow> string \<Rightarrow> bool" where
  "search re prev [] = (run re (prev, []) \<noteq> [])"
| "search re prev (c # rest) = (run re (prev, c # rest) \<noteq> [] \<or> search re (Some c) rest)"

definition MatchString :: "regexp \<Rightarrow> string \<Rightarrow> bool" where
  "MatchString re s = search re None s"

text \<open>\<open>(?m)^/test all,?($|\s.*)\<close>\<close>

definition TestAllRe :: regexp where
  "TestAllRe =
     Concat BeginLine (Concat (Literal ''/test all'') (Concat (Quest (Literal '',''))
       (Alternate EndLine (Concat (CharClass whitespace) (Star AnyCharNotNL)))))"

text \<open>\<open>(?m)^/retest\s*$\<close>\<close>

definition RetestRe :: regexp where
  "RetestRe =
     Concat BeginLine (Concat (Literal ''/retest'') (Concat (Star (CharClass whitespace)) EndLine))"

text \<open>\<open>(?m)^/retest-required\s*$\<close>\<close>

definition RetestRequiredRe :: regexp where
  "RetestRequiredRe =
     Concat BeginLine
       (Concat (Literal ''/retest-required'') (Concat (Star (CharClass whitespace)) EndLine))"

text \<open>\<open>(?m)^/ok-to-test\s*$\<close>\<close>

definition OkToTestRe :: regexp where
  "OkToTestRe =
     Concat BeginLine
       (Concat (Literal ''/ok-to-test'') (Concat (Star (CharClass whitespace)) EndLine))"

text \<open>The lines of a text: the pieces between its newlines.\<close>

fun lines :: "string \<Rightarrow> string list" where
  "lines [] = [[]]"
| "lines (c # rest) =
     (if c = newline then [] # lines rest
      else (case lines rest of [] \<Rightarrow> [[c]] | l # ls \<Rightarrow> (c # l) # ls))"

definition some_line_matches :: "regexp \<Rightarrow> string \<Rightarrow> bool" where
  "some_line_matches re body = (\<exists>l \<in> set (lines body). MatchString re l)"

section \<open>The filter-chain builder\<close>

text \<open>
  \<open>contextGetter\<close> is a call to the outside: it reads a state of the outside world (of an
  abstract type \<open>'w\<close>), may change it, and returns the Go triple
  \<open>(failedContexts, allContexts, err)\<close>. \<open>PresubmitFilter\<close> passes on the logger and
  the world, and returns the Go pair \<open>(Filter, error)\<close>, \<open>None\<close> for a nil filter.
  The function body is split at its second and third \<open>if\<close>.
\<close>

type_synonym 'w contextGetter = "'w \<Rightarrow> (string set \<times> string set \<times> error option) \<times> 'w"

definition PresubmitFilter_testAll ::
  "bool \<Rightarrow> string \<Rightarrow> 'c Filter list \<Rightarrow> logger \<times> 'w \<Rightarrow>
   ('c Filter option \<times> error option) \<times> (logger \<times> 'w)" where
  "PresubmitFilter_testAll honorOkToTest body filters =
     (\<lambda>(logger, w).
        if (honorOkToTest \<and> MatchString OkToTestRe body) \<or> MatchString TestAllRe body then
          ((Some (AggregateFilter (filters @ [TestAllFilter])), None),
           (logger @ [Entry DebugLevel [] ''Using test-all filter.''], w))
        else ((Some (AggregateFilter filters), None), (logger, w)))"

definition PresubmitFilter_retestRequired ::
  "bool \<Rightarrow> 'w contextGetter \<Rightarrow> string \<Rightarrow> 'c Filter list \<Rightarrow> logger \<times> 'w \<Rightarrow>
   ('c Filter option \<times> error option) \<times> (logger \<times> 'w)" where
  "PresubmitFilter_retestRequired honorOkToTest contextGetter body filters =
     (\<lambda>(logger, w).
        if MatchString RetestRequiredRe body then
          (case contextGetter w of
             ((failedContexts, allContexts, err), w') \<Rightarrow>
               (case err of
                  Some e \<Rightarrow>
                    ((None, Some e),
                     (logger @ [Entry InfoLevel [] ''Using retest-required filter''], w'))
                | None \<Rightarrow>
                    PresubmitFilter_testAll honorOkToTest body
                      (filters @ [RetestRequiredFilter failedContexts allContexts])
                      (logger @ [Entry InfoLevel [] ''Using retest-required filter''], w')))
        else PresubmitFilter_testAll honorOkToTest body filters (logger, w))"

definition PresubmitFilter ::
  "bool \<Rightarrow> 'w contextGetter \<Rightarrow> string \<Rightarrow> logger \<times> 'w \<Rightarrow>
   ('c Filter option \<times> error option) \<times> (logger \<times> 'w)" where
  "PresubmitFilter honorOkToTest contextGetter body =
     (\<lambda>(logger, w).
        if MatchString RetestRe body then
          (case contextGetter w of
             ((failedContexts, allContexts, err), w') \<Rightarrow>
               (case err of
                  Some e \<Rightarrow>
                    ((None, Some e), (logger @ [Entry InfoLevel [] ''Using retest filter.''], w'))
                | None \<Rightarrow>
                    PresubmitFilter_retestRequired honorOkToTest contextGetter body
                      ([CommandFilter body] @ [RetestFilter failedContexts allContexts])
                      (logger @ [Entry InfoLevel [] ''Using retest filter.''], w')))
        else PresubmitFilter_retestRequired honorOkToTest contextGetter body
               [CommandFilter body] (logger, w))"

section \<open>The summary builder\<close>

text \<open>The two loops at the end of \<open>AvailablePresubmits\<close>, each inserting into its sets.\<close>

fun insertNames :: "'c Presubmit list \<Rightarrow> string set \<Rightarrow> string set" where
  "insertNames [] runWithTestAllNames = runWithTestAllNames"
| "insertNames (ps # rest) runWithTestAllNames =
     insertNames rest (insert (Name ps) runWithTestAllNames)"

fun insertCommands ::
  "'c Presubmit list \<Rightarrow> string set \<times> string set \<Rightarrow> string set \<times> string set" where
  "insertCommands [] (optionalJobTriggerCommands, requiredJobsTriggerCommands) =
     (optionalJobTriggerCommands, requiredJobsTriggerCommands)"
| "insertCommands (ps # rest) (optionalJobTriggerCommands, requiredJobsTriggerCommands) =
     (if Optional ps then
        insertCommands rest
          (insert (RerunCommand ps) optionalJobTriggerCommands, requiredJobsTriggerCommands)
      else
        insertCommands rest
          (optionalJobTriggerCommands, insert (RerunCommand ps) requiredJobsTriggerCommands))"

text \<open>The loop of \<open>AvailablePresubmits\<close> that builds \<open>triggerFilters\<close>.\<close>

definition triggerFilters :: "'c Presubmit list \<Rightarrow> 'c Filter list" where
  "triggerFilters presubmits = map (\<lambda>ps. CommandFilter (RerunCommand ps)) presubmits"

text \<open>
  \<open>AvailablePresubmits\<close> returns the Go 4-tuple (three sets and the error); \<open>org\<close> and
  \<open>repo\<close> are not read by the function.
\<close>

definition AvailablePresubmits ::
  "'c \<Rightarrow> string \<Rightarrow> string \<Rightarrow> string \<Rightarrow> 'c Presubmit list \<Rightarrow> logger \<Rightarrow>
   (string set \<times> string set \<times> string set \<times> error option) \<times> logger" where
  "AvailablePresubmits changes org repo branch presubmits logger =
     (case FilterPresubmits TestAllFilter changes branch presubmits logger of
        ((runWithTestAll, err), logger1) \<Rightarrow>
          (case err of
             Some e \<Rightarrow> (({}, {}, {}, Some e), logger1)
           | None \<Rightarrow>
               (case FilterPresubmits (AggregateFilter (triggerFilters presubmits))
                       changes branch presubmits logger1 of
                  ((runWithTrigger, err'), logger2) \<Rightarrow>
                    (case err' of
                       Some e \<Rightarrow> (({}, {}, {}, Some e), logger2)
                     | None \<Rightarrow>
                         (case insertCommands runWithTrigger ({}, {}) of
                            (optionalJobTriggerCommands, requiredJobsTriggerCommands) \<Rightarrow>
                              ((insertNames runWithTestAll {}, optionalJobTriggerCommands,
                                requiredJobsTriggerCommands, None), logger2))))))"

section \<open>Concrete presubmits used as inputs\<close>

text \<open>
  A presubmit builder for concrete inputs: the trigger matches exactly the bodies of the
  given list, and \<open>ShouldRun\<close> is the given function.
\<close>

definition mkPresubmit ::
  "string \<Rightarrow> string \<Rightarrow> string \<Rightarrow> bool \<Rightarrow> string list \<Rightarrow> bool \<Rightarrow>
   (string \<Rightarrow> unit \<Rightarrow> bool \<Rightarrow> bool \<Rightarrow> bool \<times> error option) \<Rightarrow> unit Presubmit" where
  "mkPresubmit n c r opt bodies explicit oracle =
     \<lparr> Name = n, Context = c, RerunCommand = r, Optional = opt,
       TriggerMatches = (\<lambda>body. body \<in> set bodies),
       NeedsExplicitTrigger = explicit, ShouldRun = oracle \<rparr>"

definition alwaysRuns :: "string \<Rightarrow> unit \<Rightarrow> bool \<Rightarrow> bool \<Rightarrow> bool \<times> error option" where
  "alwaysRuns branch changes forced defaults = (True, None)"

definition neverRuns :: "string \<Rightarrow> unit \<Rightarrow> bool \<Rightarrow> bool \<Rightarrow> bool \<times> error option" where
  "neverRuns branch changes forced defaults = (False, None)"

definition failsToDecide :: "string \<Rightarrow> unit \<Rightarrow> bool \<Rightarrow> bool \<Rightarrow> bool \<times> error option" where
  "failsToDecide branch changes forced defaults = (False, Some (ErrorString ''boom''))"

text \<open>
  The jobs of the specification's scenarios: two jobs that run automatically, one that
  needs an explicit trigger, and an optional one.
\<close>

definition unit_job :: "unit Presubmit" where
  "unit_job = mkPresubmit ''unit'' ''ci/unit'' ''/test unit'' False [''/test unit''] False alwaysRuns"

definition lint_job :: "unit Presubmit" where
  "lint_job = mkPresubmit ''lint'' ''ci/lint'' ''/test lint'' False [''/test lint''] False alwaysRuns"

definition e2e_job :: "unit Presubmit" where
  "e2e_job = mkPresubmit ''e2e'' ''ci/e2e'' ''/test e2e'' False [''/test e2e''] True alwaysRuns"

definition flaky_job :: "unit Presubmit" where
  "flaky_job = mkPresubmit ''flaky'' ''ci/flaky'' ''/test flaky'' True [''/test flaky''] True alwaysRuns"

definition broken_job :: "unit Presubmit" where
  "broken_job = mkPresubmit ''broken'' ''ci/broken'' ''/test broken'' False [''/test broken''] False failsToDecide"

definition skipped_job :: "unit Presubmit" where
  "skipped_job = mkPresubmit ''skipped'' ''ci/skipped'' ''/test skipped'' False [''/test skipped''] False neverRuns"

text \<open>
  Two jobs that share one rerun command, one optional and one required, and the required
  job of the specification's scenario C.
\<close>

definition e2e_fast_job :: "unit Presubmit" where
  "e2e_fast_job = mkPresubmit ''e2e-fast'' ''ci/e2e-fast'' ''/test e2e'' True [''/test e2e''] True alwaysRuns"

definition e2e_full_job :: "unit Presubmit" where
  "e2e_full_job = mkPresubmit ''e2e-full'' ''ci/e2e-full'' ''/test e2e'' False [''/test e2e''] True alwaysRuns"

definition core_job :: "unit Presubmit" where
  "core_job = mkPresubmit ''core'' ''ci/core'' ''/test core'' False [''/test core''] False alwaysRuns"

text \<open>A job that needs an explicit trigger and whose trigger matches \<open>/test all\<close>.\<close>

definition all_job :: "unit Presubmit" where
  "all_job = mkPresubmit ''all'' ''ci/all'' ''/test all'' False [''/test all''] True alwaysRuns"

text \<open>
  Context getters over a world that counts their calls: one that returns the given sets,
  one that fails. And a comment with the two retest commands, each on its own line.
\<close>

definition countingGetter :: "string set \<Rightarrow> string set \<Rightarrow> nat contextGetter" where
  "countingGetter failedContexts allContexts n = ((failedContexts, allContexts, None), Suc n)"

definition failingGetter :: "nat contextGetter" where
  "failingGetter n = (({}, {}, Some (ErrorString ''no status'')), Suc n)"

definition retest_both_body :: string where
  "retest_both_body = ''/retest'' @ [newline] @ ''/retest-required''"

lemmas jobs_defs = unit_job_def lint_job_def e2e_job_def flaky_job_def mkPresubmit_def

lemmas verdict_defs = verdict_def oracle_fails_def triggers_def declined_def
  TestAllFilter_def alwaysRuns_def neverRuns_def failsToDecide_def broken_job_def skipped_job_def

lemmas PresubmitFilter_defs =
  PresubmitFilter_def PresubmitFilter_retestRequired_def PresubmitFilter_testAll_def

lemmas pattern_defs =
  MatchString_def RetestRe_def RetestRequiredRe_def OkToTestRe_def TestAllRe_def
  newline_def whitespace_def

section \<open>CommandFilter\<close>

text \<open>
  C10. For every body and presubmit, the tuple of \<open>CommandFilter body\<close> has its forced
  component equal to its matches component, both equal to \<open>TriggerMatches p body\<close>, and
  its defaultBehavior component is true; on a presubmit whose trigger does not match the
  tuple is (false, false, true).
\<close>

theorem CommandFilter_components:
  "fst (CommandFilter body p) = TriggerMatches p body \<and>
   fst (snd (CommandFilter body p)) = fst (CommandFilter body p) \<and>
   snd (snd (CommandFilter body p)) = True \<and>
   (\<not> TriggerMatches p body \<longrightarrow> CommandFilter body p = (False, False, True))"
  by (simp add: CommandFilter_def)

theorem CommandFilter_components_witness:
  "\<not> TriggerMatches unit_job ''/retest'' \<and>
   CommandFilter ''/retest'' unit_job = (False, False, True)"
  using CommandFilter_components [of "''/retest''" unit_job]
  by (simp add: jobs_defs)

text \<open>
  C3, as stated, fails: on a presubmit whose trigger does not match the command text the
  tuple is not (false, false, false), since the third component is the constant true.
\<close>

theorem CommandFilter_nonmatch_counterexample:
  "\<not> TriggerMatches unit_job ''/retest'' \<and>
   CommandFilter ''/retest'' unit_job \<noteq> (False, False, False)"
  by (simp add: CommandFilter_def jobs_defs)

text \<open>
  C3, amended. For every command text \<open>c\<close> and presubmit \<open>p\<close>, \<open>CommandFilter c\<close>
  applied to \<open>p\<close> yields (true, true, true) when the trigger of \<open>p\<close> matches \<open>c\<close>, and
  (false, false, true) when it does not.
\<close>

theorem CommandFilter_cases:
  "(TriggerMatches p c \<longrightarrow> CommandFilter c p = (True, True, True)) \<and>
   (\<not> TriggerMatches p c \<longrightarrow> CommandFilter c p = (False, False, True))"
  by (simp add: CommandFilter_def)

theorem CommandFilter_cases_witness:
  "TriggerMatches unit_job ''/test unit'' \<and>
   CommandFilter ''/test unit'' unit_job = (True, True, True) \<and>
   \<not> TriggerMatches unit_job ''/test lint'' \<and>
   CommandFilter ''/test lint'' unit_job = (False, False, True)"
  using CommandFilter_cases [of unit_job "''/test unit''"]
        CommandFilter_cases [of unit_job "''/test lint''"]
  by (simp add: jobs_defs)

section \<open>RetestFilter and RetestRequiredFilter\<close>

text \<open>
  C2. \<open>RetestFilter failed all\<close> matches \<open>p\<close> iff the context of \<open>p\<close> is in \<open>failed\<close>,
  or \<open>p\<close> needs no explicit trigger and its context is not in \<open>all\<close>; its forced
  component is false; its defaultBehavior component is whether the context is in
  \<open>failed\<close>. \<open>RetestRequiredFilter failed all\<close> returns (false, false, false) for an
  optional presubmit and the tuple of \<open>RetestFilter failed all\<close> for any other.
\<close>

theorem Retest_filters:
  "fst (RetestFilter failed all p) =
     (Context p \<in> failed \<or> (\<not> NeedsExplicitTrigger p \<and> Context p \<notin> all)) \<and>
   fst (snd (RetestFilter failed all p)) = False \<and>
   snd (snd (RetestFilter failed all p)) = (Context p \<in> failed) \<and>
   (Optional p \<longrightarrow> RetestRequiredFilter failed all p = (False, False, False)) \<and>
   (\<not> Optional p \<longrightarrow> RetestRequiredFilter failed all p = RetestFilter failed all p)"
  by (simp add: RetestFilter_def RetestRequiredFilter_def Let_def)

theorem Retest_filters_witness:
  "Optional flaky_job \<and>
   RetestFilter {''ci/flaky''} {''ci/flaky''} flaky_job = (True, False, True) \<and>
   RetestRequiredFilter {''ci/flaky''} {''ci/flaky''} flaky_job = (False, False, False) \<and>
   \<not> Optional unit_job \<and>
   RetestFilter {''ci/unit''} {''ci/unit'', ''ci/lint''} unit_job = (True, False, True) \<and>
   RetestRequiredFilter {''ci/unit''} {''ci/unit'', ''ci/lint''} unit_job = (True, False, True) \<and>
   RetestFilter {''ci/unit''} {''ci/unit'', ''ci/lint''} lint_job = (False, False, False) \<and>
   RetestFilter {''ci/unit''} {''ci/unit'', ''ci/lint''} e2e_job = (False, False, False) \<and>
   RetestFilter {} {} lint_job = (True, False, False)"
  using Retest_filters [of "{''ci/flaky''}" "{''ci/flaky''}" flaky_job]
        Retest_filters [of "{''ci/unit''}" "{''ci/unit'', ''ci/lint''}" unit_job]
  by (simp add: RetestFilter_def jobs_defs)

section \<open>AggregateFilter\<close>

lemma AggregateFilter_find:
  "AggregateFilter filters p =
     (case find (\<lambda>f. fst (f p)) filters of None \<Rightarrow> (False, False, False) | Some f \<Rightarrow> f p)"
  by (induction filters) (auto split: prod.splits)

lemma AggregateFilter_first:
  "\<forall>g \<in> set pre. \<not> fst (g p) \<Longrightarrow> fst (f p) \<Longrightarrow> AggregateFilter (pre @ f # post) p = f p"
  by (induction pre) (auto split: prod.splits)

lemma AggregateFilter_none:
  "\<forall>g \<in> set filters. \<not> fst (g p) \<Longrightarrow> AggregateFilter filters p = (False, False, False)"
  by (induction filters) (auto split: prod.splits)

text \<open>
  C1. \<open>AggregateFilter filters\<close> returns the tuple of the first filter, in the order of
  the list, whose matches component is true: whatever follows that filter in the list is
  not consulted. When no filter matches, and so for the empty list, it returns
  (false, false, false). The order matters: on a presubmit that both \<open>CommandFilter body\<close>
  and \<open>TestAllFilter\<close> match, the two orders of these filters give different tuples.
\<close>

theorem AggregateFilter_first_match:
  "AggregateFilter filters p =
     (case find (\<lambda>f. fst (f p)) filters of None \<Rightarrow> (False, False, False) | Some f \<Rightarrow> f p) \<and>
   ((\<forall>g \<in> set pre. \<not> fst (g p)) \<and> fst (f p) \<longrightarrow> AggregateFilter (pre @ f # post) p = f p) \<and>
   ((\<forall>g \<in> set filters. \<not> fst (g p)) \<longrightarrow> AggregateFilter filters p = (False, False, False)) \<and>
   AggregateFilter [] p = (False, False, False) \<and>
   (TriggerMatches p body \<and> \<not> NeedsExplicitTrigger p \<longrightarrow>
      fst (CommandFilter body p) \<and> fst (TestAllFilter p) \<and>
      AggregateFilter [CommandFilter body, TestAllFilter] p = (True, True, True) \<and>
      AggregateFilter [TestAllFilter, CommandFilter body] p = (True, False, False))"
proof -
  have "TriggerMatches p body \<and> \<not> NeedsExplicitTrigger p \<longrightarrow>
      fst (CommandFilter body p) \<and> fst (TestAllFilter p) \<and>
      AggregateFilter [CommandFilter body, TestAllFilter] p = (True, True, True) \<and>
      AggregateFilter [TestAllFilter, CommandFilter body] p = (True, False, False)"
    by (simp add: CommandFilter_def TestAllFilter_def)
  then show ?thesis
    using AggregateFilter_find [of filters p] AggregateFilter_first [of pre p f post]
      AggregateFilter_none [of filters p]
    by simp
qed

theorem AggregateFilter_first_match_witness:
  "find (\<lambda>f. fst (f unit_job)) [CommandFilter ''/test lint'', TestAllFilter, CommandFilter ''/test unit'']
     = Some TestAllFilter \<and>
   AggregateFilter [CommandFilter ''/test lint'', TestAllFilter, CommandFilter ''/test unit''] unit_job
     = (True, False, False) \<and>
   AggregateFilter [CommandFilter ''/test lint'', CommandFilter ''/test unit'', TestAllFilter] unit_job
     = (True, True, True) \<and>
   AggregateFilter [CommandFilter ''/test lint'', TestAllFilter] e2e_job = (False, False, False) \<and>
   AggregateFilter [CommandFilter ''/test unit'', TestAllFilter] unit_job = (True, True, True) \<and>
   AggregateFilter [TestAllFilter, CommandFilter ''/test unit''] unit_job = (True, False, False)"
  using AggregateFilter_first_match
    [of "[CommandFilter ''/test lint'', TestAllFilter, CommandFilter ''/test unit'']" unit_job
        "[CommandFilter ''/test lint'']" TestAllFilter "[CommandFilter ''/test unit'']" "''/test unit''"]
    AggregateFilter_first_match
    [of "[CommandFilter ''/test lint'', TestAllFilter]" e2e_job
        "[CommandFilter ''/test lint'']" "CommandFilter ''/test unit''" "[TestAllFilter]" "''/test unit''"]
  apply (simp add: jobs_defs CommandFilter_def TestAllFilter_def)
  done

section \<open>FilterPresubmits\<close>

lemma loop_no_failure:
  "find (oracle_fails f ch br) ps = None \<Longrightarrow>
   FilterPresubmits_loop f ch br ps st =
     (st\<lparr>toTrigger := toTrigger st @ filter (triggers f ch br) ps,
         namesToTrigger := namesToTrigger st @ map Name (filter (triggers f ch br) ps),
         noMatch := noMatch st + length (filter (\<lambda>p. \<not> fst (f p)) ps),
         shouldnotRun := shouldnotRun st + length (filter (declined f ch br) ps)\<rparr>, None)"
proof (induction ps arbitrary: st)
  case Nil
  then show ?case by simp
next
  case (Cons p ps)
  then show ?case
    by (auto simp: oracle_fails_def triggers_def declined_def verdict_def
             split: prod.splits option.splits if_splits)
qed

lemma loop_failure:
  "find (oracle_fails f ch br) ps = Some q \<Longrightarrow>
   snd (FilterPresubmits_loop f ch br ps st) =
     Some (Errorf_should_run (Name q) (the (snd (verdict f ch br q))))"
proof (induction ps arbitrary: st)
  case Nil
  then show ?case by simp
next
  case (Cons p ps)
  then show ?case
    by (auto simp: oracle_fails_def verdict_def
             split: prod.splits option.splits if_splits)
qed


lemma find_first:
  "\<forall>x \<in> set pre. \<not> P x \<Longrightarrow> P p \<Longrightarrow> find P (pre @ p # post) = Some p"
  by (induction pre) auto

lemma FilterPresubmits_failure:
  assumes "find (oracle_fails f ch br) ps = Some q"
  shows "FilterPresubmits f ch br ps lg =
           (([], Some (Errorf_should_run (Name q) (the (snd (verdict f ch br q))))), lg)"
  using loop_failure [OF assms,
      of "\<lparr>toTrigger = [], namesToTrigger = [], noMatch = 0, shouldnotRun = 0\<rparr>"]
  by (auto simp: FilterPresubmits_def split: prod.splits option.splits)

lemma FilterPresubmits_no_failure:
  assumes "find (oracle_fails f ch br) ps = None"
  shows "FilterPresubmits f ch br ps lg =
           ((filter (triggers f ch br) ps, None),
            lg @ [Entry DebugLevel
              [(''to-trigger'', Strings (map Name (filter (triggers f ch br) ps))),
               (''total-count'', Count (length ps)),
               (''to-trigger-count'', Count (length (filter (triggers f ch br) ps))),
               (''no-match-count'', Count (length (filter (\<lambda>p. \<not> fst (f p)) ps))),
               (''should-not-run-count'', Count (length (filter (declined f ch br) ps)))]
              ''Filtered complete.''])"
  by (simp add: FilterPresubmits_def loop_no_failure [OF assms])

lemma FilterPresubmits_error_iff:
  "snd (fst (FilterPresubmits f ch br ps lg)) = None \<longleftrightarrow> find (oracle_fails f ch br) ps = None"
proof (cases "find (oracle_fails f ch br) ps")
  case None
  then show ?thesis by (simp add: FilterPresubmits_no_failure)
next
  case (Some q)
  then show ?thesis by (simp add: FilterPresubmits_failure)
qed

lemma partition_counts:
  "length (filter (\<lambda>p. \<not> fst (f p)) ps) + length (filter (declined f ch br) ps)
     + length (filter (triggers f ch br) ps) = length ps"
  by (induction ps) (auto simp: declined_def triggers_def)

text \<open>
  C5. When the oracle \<open>ShouldRun\<close> returns an error for a matched presubmit,
  \<open>FilterPresubmits\<close> returns an error and an empty (nil) list: the error's message
  starts with the name of that presubmit, and the error wraps the oracle's error. The scan
  stops at the first matched presubmit for which the oracle fails, so that is the
  presubmit named; when the oracle would fail for any matched presubmit of the list, the
  error of one of them is returned, never a result.
\<close>

theorem FilterPresubmits_oracle_error:
  "(ps = pre @ p # post \<and> (\<forall>x \<in> set pre. \<not> oracle_fails f ch br x) \<and>
      fst (f p) \<and> snd (verdict f ch br p) = Some e \<longrightarrow>
      FilterPresubmits f ch br ps lg =
        (([], Some (WrapError (Name p @ '': should run: '' @ Error e) e)), lg)) \<and>
   ((\<exists>x \<in> set ps. fst (f x) \<and> snd (verdict f ch br x) \<noteq> None) \<longrightarrow>
      fst (fst (FilterPresubmits f ch br ps lg)) = [] \<and>
      (\<exists>q e' err. q \<in> set ps \<and> fst (f q) \<and> snd (verdict f ch br q) = Some e' \<and>
         snd (fst (FilterPresubmits f ch br ps lg)) = Some err \<and>
         Error err = Name q @ '': should run: '' @ Error e' \<and> Unwrap err = Some e'))"
proof (intro conjI impI)
  assume a: "ps = pre @ p # post \<and> (\<forall>x \<in> set pre. \<not> oracle_fails f ch br x) \<and>
      fst (f p) \<and> snd (verdict f ch br p) = Some e"
  then have "oracle_fails f ch br p" by (simp add: oracle_fails_def)
  with a have "find (oracle_fails f ch br) ps = Some p" by (simp add: find_first)
  from FilterPresubmits_failure [OF this] a
  show "FilterPresubmits f ch br ps lg =
        (([], Some (WrapError (Name p @ '': should run: '' @ Error e) e)), lg)"
    by (simp add: Errorf_should_run_def)
next
  assume b: "\<exists>x \<in> set ps. fst (f x) \<and> snd (verdict f ch br x) \<noteq> None"
  then have "find (oracle_fails f ch br) ps \<noteq> None"
    by (auto simp: find_None_iff oracle_fails_def)
  then obtain q where q: "find (oracle_fails f ch br) ps = Some q" by auto
  then have qs: "q \<in> set ps" and qf: "oracle_fails f ch br q"
    by (auto simp: find_Some_iff)
  from qf obtain e' where e': "snd (verdict f ch br q) = Some e'"
    by (auto simp: oracle_fails_def)
  from FilterPresubmits_failure [OF q, of lg]
  show "fst (fst (FilterPresubmits f ch br ps lg)) = []" by simp
  from FilterPresubmits_failure [OF q, of lg] qs qf e'
  show "\<exists>q e' err. q \<in> set ps \<and> fst (f q) \<and> snd (verdict f ch br q) = Some e' \<and>
         snd (fst (FilterPresubmits f ch br ps lg)) = Some err \<and>
         Error err = Name q @ '': should run: '' @ Error e' \<and> Unwrap err = Some e'"
    by (auto simp: Errorf_should_run_def oracle_fails_def)
qed

theorem FilterPresubmits_oracle_error_witness:
  "[unit_job, broken_job, lint_job] = [unit_job] @ broken_job # [lint_job] \<and>
   \<not> oracle_fails TestAllFilter () ''main'' unit_job \<and>
   fst (TestAllFilter broken_job) \<and>
   snd (verdict TestAllFilter () ''main'' broken_job) = Some (ErrorString ''boom'') \<and>
   FilterPresubmits TestAllFilter () ''main'' [unit_job, broken_job, lint_job] [] =
     (([], Some (WrapError ''broken: should run: boom'' (ErrorString ''boom''))), [])"
  using FilterPresubmits_oracle_error
    [of "[unit_job, broken_job, lint_job]" "[unit_job]" broken_job "[lint_job]"
        TestAllFilter "()" "''main''" "ErrorString ''boom''" "[]"]
  by (simp add: verdict_defs jobs_defs)

text \<open>
  C6. When \<open>FilterPresubmits\<close> returns no error, the returned list is the input list
  restricted, in the input's order, to the presubmits that the filter matched and for which
  the oracle answered yes; it is a subsequence of the input. The counters written to the
  logger partition the input: the no-match count, the should-not-run count and the
  to-trigger count add up to the total count.
\<close>

theorem FilterPresubmits_result:
  assumes "snd (fst (FilterPresubmits f ch br ps lg)) = None"
  shows "fst (fst (FilterPresubmits f ch br ps lg)) = filter (triggers f ch br) ps \<and>
         subseq (fst (fst (FilterPresubmits f ch br ps lg))) ps \<and>
         snd (FilterPresubmits f ch br ps lg) =
           lg @ [Entry DebugLevel
              [(''to-trigger'', Strings (map Name (filter (triggers f ch br) ps))),
               (''total-count'', Count (length ps)),
               (''to-trigger-count'', Count (length (filter (triggers f ch br) ps))),
               (''no-match-count'', Count (length (filter (\<lambda>p. \<not> fst (f p)) ps))),
               (''should-not-run-count'', Count (length (filter (declined f ch br) ps)))]
              ''Filtered complete.''] \<and>
         length (filter (\<lambda>p. \<not> fst (f p)) ps) + length (filter (declined f ch br) ps)
           + length (filter (triggers f ch br) ps) = length ps"
proof -
  from assms have "find (oracle_fails f ch br) ps = None"
    by (simp add: FilterPresubmits_error_iff)
  from FilterPresubmits_no_failure [OF this, of lg] show ?thesis
    by (simp add: partition_counts)
qed

theorem FilterPresubmits_result_witness:
  "snd (fst (FilterPresubmits TestAllFilter () ''main''
               [e2e_job, unit_job, skipped_job, lint_job, flaky_job] [])) = None \<and>
   FilterPresubmits TestAllFilter () ''main''
     [e2e_job, unit_job, skipped_job, lint_job, flaky_job] [] =
     (([unit_job, lint_job], None),
      [Entry DebugLevel
         [(''to-trigger'', Strings [''unit'', ''lint'']),
          (''total-count'', Count 5),
          (''to-trigger-count'', Count 2),
          (''no-match-count'', Count 2),
          (''should-not-run-count'', Count 1)]
         ''Filtered complete.''])"
  using FilterPresubmits_result
    [of TestAllFilter "()" "''main''" "[e2e_job, unit_job, skipped_job, lint_job, flaky_job]" "[]"]
  by (simp add: FilterPresubmits_def verdict_defs jobs_defs)


lemma loop_cong:
  "\<forall>p \<in> set ps. f p = g p \<Longrightarrow>
   FilterPresubmits_loop f ch br ps st = FilterPresubmits_loop g ch br ps st"
  by (induction ps arbitrary: st) (auto split: prod.splits option.splits)

lemma FilterPresubmits_logger:
  "fst (FilterPresubmits f ch br ps lg) = fst (FilterPresubmits f ch br ps lg')"
  by (simp add: FilterPresubmits_def split: prod.splits option.splits)

lemma FilterPresubmits_cong:
  "\<forall>p \<in> set ps. f p = g p \<Longrightarrow>
   fst (FilterPresubmits f ch br ps lg) = fst (FilterPresubmits g ch br ps lg')"
  by (simp add: FilterPresubmits_def loop_cong [of ps f g] split: prod.splits option.splits)

lemma FilterPresubmits_members:
  "set (fst (fst (FilterPresubmits f ch br ps lg))) \<subseteq> set ps"
proof (cases "find (oracle_fails f ch br) ps")
  case None
  then show ?thesis by (auto simp: FilterPresubmits_no_failure)
next
  case (Some q)
  then show ?thesis by (simp add: FilterPresubmits_failure)
qed

lemma FilterPresubmits_logger_grows:
  "prefix lg (snd (FilterPresubmits f ch br ps lg))"
  by (simp add: FilterPresubmits_def split: prod.splits option.splits)

text \<open>
  C9. \<open>FilterPresubmits\<close> is deterministic and leaves its input alone. Its result
  depends on the filter only through the tuples the filter gives on the presubmits of the
  list, and not on the logger: two filters that agree on the list give identical results,
  whatever was logged before, and a second run after the first (on the logger the first
  run left) returns the same result. Every returned presubmit is one of the input
  presubmits as it was given (the filter and the oracle receive each presubmit by value),
  and the only effect of a run is to append to the logger.
\<close>

theorem FilterPresubmits_deterministic:
  "((\<forall>p \<in> set ps. f p = g p) \<longrightarrow>
      fst (FilterPresubmits f ch br ps lg) = fst (FilterPresubmits g ch br ps lg')) \<and>
   fst (FilterPresubmits f ch br ps (snd (FilterPresubmits f ch br ps lg))) =
     fst (FilterPresubmits f ch br ps lg) \<and>
   set (fst (fst (FilterPresubmits f ch br ps lg))) \<subseteq> set ps \<and>
   prefix lg (snd (FilterPresubmits f ch br ps lg))"
  using FilterPresubmits_cong [of ps f g ch br lg lg']
    FilterPresubmits_logger [of f ch br ps "snd (FilterPresubmits f ch br ps lg)" lg]
    FilterPresubmits_members [of f ch br ps lg]
    FilterPresubmits_logger_grows [of lg f ch br ps]
  by blast

theorem FilterPresubmits_deterministic_witness:
  "TestAllFilter unit_job = RetestFilter {} {} unit_job \<and>
   TestAllFilter e2e_job = RetestFilter {} {} e2e_job \<and>
   fst (FilterPresubmits TestAllFilter () ''main'' [unit_job, e2e_job] []) =
   fst (FilterPresubmits (RetestFilter {} {}) () ''main'' [unit_job, e2e_job]
          [Entry InfoLevel [] ''Using retest filter.'']) \<and>
   fst (FilterPresubmits TestAllFilter () ''main'' [unit_job, e2e_job] []) =
     ([unit_job], None)"
  using FilterPresubmits_deterministic
    [of "[unit_job, e2e_job]" TestAllFilter "RetestFilter {} {}" "()" "''main''" "[]"
        "[Entry InfoLevel [] ''Using retest filter.'']"]
  by (simp add: FilterPresubmits_def RetestFilter_def verdict_defs jobs_defs)

section \<open>AvailablePresubmits\<close>

lemma insertNames_eq: "insertNames rs S = S \<union> Name ` set rs"
  by (induction rs arbitrary: S) auto

lemma insertCommands_eq:
  "insertCommands rs (opt, req) =
     (opt \<union> RerunCommand ` {p \<in> set rs. Optional p},
      req \<union> RerunCommand ` {p \<in> set rs. \<not> Optional p})"
  by (induction rs arbitrary: opt req) auto

lemma AvailablePresubmits_eq:
  "AvailablePresubmits ch org repo br ps lg =
     (case find (oracle_fails TestAllFilter ch br) ps of
        Some q \<Rightarrow> (({}, {}, {}, snd (fst (FilterPresubmits TestAllFilter ch br ps lg))), lg)
      | None \<Rightarrow>
         (case find (oracle_fails (AggregateFilter (triggerFilters ps)) ch br) ps of
            Some q \<Rightarrow>
              (({}, {}, {},
                snd (fst (FilterPresubmits (AggregateFilter (triggerFilters ps)) ch br ps lg))),
               snd (FilterPresubmits TestAllFilter ch br ps lg))
          | None \<Rightarrow>
              ((Name ` {p \<in> set ps. triggers TestAllFilter ch br p},
                RerunCommand ` {p \<in> set ps. triggers (AggregateFilter (triggerFilters ps)) ch br p
                                   \<and> Optional p},
                RerunCommand ` {p \<in> set ps. triggers (AggregateFilter (triggerFilters ps)) ch br p
                                   \<and> \<not> Optional p},
                None),
               snd (FilterPresubmits (AggregateFilter (triggerFilters ps)) ch br ps
                      (snd (FilterPresubmits TestAllFilter ch br ps lg))))))"
proof (cases "find (oracle_fails TestAllFilter ch br) ps")
  case (Some q)
  then show ?thesis
    by (simp add: AvailablePresubmits_def FilterPresubmits_failure)
next
  case None
  note n1 = this
  show ?thesis
  proof (cases "find (oracle_fails (AggregateFilter (triggerFilters ps)) ch br) ps")
    case (Some q)
    then show ?thesis
      using n1
      by (simp add: AvailablePresubmits_def FilterPresubmits_failure FilterPresubmits_no_failure)
  next
    case None
    from None n1 show ?thesis
      by (auto simp add: AvailablePresubmits_def FilterPresubmits_no_failure
          insertNames_eq insertCommands_eq)
  qed
qed


lemma scenario_flags:
  assumes "TriggerMatches p1 (RerunCommand p1)" "TriggerMatches p2 (RerunCommand p2)"
  shows "AggregateFilter (triggerFilters [p1, p2]) p1 = (True, True, True)"
    and "AggregateFilter (triggerFilters [p1, p2]) p2 = (True, True, True)"
  using assms by (auto simp: triggerFilters_def CommandFilter_def)

text \<open>
  C7, as stated, fails: two triggered presubmits with the same rerun command, one optional
  and one required, put that command into both sets.
\<close>

theorem AvailablePresubmits_shared_command_counterexample:
  "fst (AvailablePresubmits () ''org'' ''repo'' ''main'' [e2e_fast_job, e2e_full_job] []) =
     ({}, {''/test e2e''}, {''/test e2e''}, None) \<and>
   ''/test e2e'' \<in> {''/test e2e''} \<inter> {''/test e2e''}"
  by (simp add: AvailablePresubmits_def triggerFilters_def FilterPresubmits_def CommandFilter_def
      e2e_fast_job_def e2e_full_job_def verdict_defs jobs_defs)

text \<open>
  C7, amended. The optional-commands set and the required-commands set returned by
  \<open>AvailablePresubmits\<close> are disjoint exactly when no triggered optional presubmit has
  the rerun command of a triggered required presubmit (they are both empty when an error
  is returned). In particular, with two eligible presubmits whose triggers match their own
  rerun commands, one optional with rerun command \<open>/test flaky\<close> and one required with
  rerun command \<open>/test core\<close>, the optional set is \<open>{/test flaky}\<close>, the required set is
  \<open>{/test core}\<close>, and neither command is in the other set.
\<close>

theorem AvailablePresubmits_disjoint:
  assumes "AvailablePresubmits ch org repo br ps lg = ((names, opt, req, err), lg')"
  shows "(opt \<inter> req = {} \<longleftrightarrow>
            \<not> (err = None \<and>
               (\<exists>p q. p \<in> set ps \<and> q \<in> set ps \<and>
                  triggers (AggregateFilter (triggerFilters ps)) ch br p \<and>
                  triggers (AggregateFilter (triggerFilters ps)) ch br q \<and>
                  Optional p \<and> \<not> Optional q \<and> RerunCommand p = RerunCommand q))) \<and>
         (ps = [p1, p2] \<and> Optional p1 \<and> \<not> Optional p2 \<and>
          RerunCommand p1 = ''/test flaky'' \<and> RerunCommand p2 = ''/test core'' \<and>
          TriggerMatches p1 (RerunCommand p1) \<and> TriggerMatches p2 (RerunCommand p2) \<and>
          (\<forall>forced defaults. ShouldRun p1 br ch forced defaults = (True, None)) \<and>
          (\<forall>forced defaults. ShouldRun p2 br ch forced defaults = (True, None)) \<longrightarrow>
          opt = {''/test flaky''} \<and> req = {''/test core''} \<and> err = None \<and>
          ''/test flaky'' \<notin> req \<and> ''/test core'' \<notin> opt)"
proof (intro conjI impI)
  show "opt \<inter> req = {} \<longleftrightarrow>
            \<not> (err = None \<and>
               (\<exists>p q. p \<in> set ps \<and> q \<in> set ps \<and>
                  triggers (AggregateFilter (triggerFilters ps)) ch br p \<and>
                  triggers (AggregateFilter (triggerFilters ps)) ch br q \<and>
                  Optional p \<and> \<not> Optional q \<and> RerunCommand p = RerunCommand q))"
  proof (cases "find (oracle_fails TestAllFilter ch br) ps")
    case (Some q)
    with assms show ?thesis
      by (auto simp: AvailablePresubmits_eq FilterPresubmits_failure)
  next
    case None
    note n1 = this
    show ?thesis
    proof (cases "find (oracle_fails (AggregateFilter (triggerFilters ps)) ch br) ps")
      case (Some q)
      with n1 assms show ?thesis
        by (auto simp: AvailablePresubmits_eq FilterPresubmits_failure)
    next
      case None
      with n1 assms have
        o: "opt = RerunCommand ` {p \<in> set ps. triggers (AggregateFilter (triggerFilters ps)) ch br p
                                   \<and> Optional p}" and
        r: "req = RerunCommand ` {p \<in> set ps. triggers (AggregateFilter (triggerFilters ps)) ch br p
                                   \<and> \<not> Optional p}" and
        e: "err = None"
        by (simp_all add: AvailablePresubmits_eq)
      show ?thesis
        unfolding o r e by (auto simp: image_iff)
    qed
  qed
next
  assume a: "ps = [p1, p2] \<and> Optional p1 \<and> \<not> Optional p2 \<and>
          RerunCommand p1 = ''/test flaky'' \<and> RerunCommand p2 = ''/test core'' \<and>
          TriggerMatches p1 (RerunCommand p1) \<and> TriggerMatches p2 (RerunCommand p2) \<and>
          (\<forall>forced defaults. ShouldRun p1 br ch forced defaults = (True, None)) \<and>
          (\<forall>forced defaults. ShouldRun p2 br ch forced defaults = (True, None))"
  then have tm: "TriggerMatches p1 (RerunCommand p1)" "TriggerMatches p2 (RerunCommand p2)"
    by blast+
  note f1 = scenario_flags(1) [OF tm] and f2 = scenario_flags(2) [OF tm]
  from a have n1: "find (oracle_fails TestAllFilter ch br) ps = None"
    by (simp add: oracle_fails_def verdict_def TestAllFilter_def)
  from a f1 f2 have n2: "find (oracle_fails (AggregateFilter (triggerFilters ps)) ch br) ps = None"
    by (simp add: oracle_fails_def verdict_def)
  from a f1 f2 have t: "{p \<in> set ps. triggers (AggregateFilter (triggerFilters ps)) ch br p \<and> Optional p} = {p1}"
    "{p \<in> set ps. triggers (AggregateFilter (triggerFilters ps)) ch br p \<and> \<not> Optional p} = {p2}"
    by (auto simp: triggers_def verdict_def)
  from assms n1 n2 have
        o: "opt = RerunCommand ` {p \<in> set ps. triggers (AggregateFilter (triggerFilters ps)) ch br p
                                   \<and> Optional p}" and
        r: "req = RerunCommand ` {p \<in> set ps. triggers (AggregateFilter (triggerFilters ps)) ch br p
                                   \<and> \<not> Optional p}" and
        e: "err = None"
        by (simp_all add: AvailablePresubmits_eq)
  from o r e t a show "opt = {''/test flaky''}" "req = {''/test core''}" "err = None"
     "''/test flaky'' \<notin> req" "''/test core'' \<notin> opt"
    by simp_all
qed


theorem AvailablePresubmits_disjoint_witness:
  "Optional flaky_job \<and> \<not> Optional core_job \<and>
   RerunCommand flaky_job = ''/test flaky'' \<and> RerunCommand core_job = ''/test core'' \<and>
   TriggerMatches flaky_job (RerunCommand flaky_job) \<and>
   TriggerMatches core_job (RerunCommand core_job) \<and>
   (\<forall>forced defaults. ShouldRun flaky_job ''main'' () forced defaults = (True, None)) \<and>
   (\<forall>forced defaults. ShouldRun core_job ''main'' () forced defaults = (True, None)) \<and>
   fst (AvailablePresubmits () ''org'' ''repo'' ''main'' [flaky_job, core_job] []) =
     ({''core''}, {''/test flaky''}, {''/test core''}, None) \<and>
   {''/test flaky''} \<inter> {''/test core''} = ({} :: string set)"
  using AvailablePresubmits_disjoint
    [of "()" "''org''" "''repo''" "''main''" "[flaky_job, core_job]" "[]"
        "{''core''}" "{''/test flaky''}" "{''/test core''}" None
        "snd (AvailablePresubmits () ''org'' ''repo'' ''main'' [flaky_job, core_job] [])"
        flaky_job core_job]
  by (simp add: AvailablePresubmits_def triggerFilters_def FilterPresubmits_def CommandFilter_def
      core_job_def verdict_defs jobs_defs)

section \<open>The patterns match line by line\<close>

text \<open>
  Each of the four patterns is \<open>^\<close>, a literal without newline, and a rest whose match
  depends on the remainder of the line only. For such a pattern, \<open>MatchString\<close> on a text
  holds exactly when it holds on one of the lines of the text.
\<close>

lemma lines_nonempty: "lines xs \<noteq> []"
  by (induction xs) (auto split: list.splits)

lemma hd_lines: "hd (lines xs) = takeWhile (\<lambda>c. c \<noteq> newline) xs"
  by (induction xs) (auto split: list.splits simp: lines_nonempty)

lemma lines_no_newline: "l \<in> set (lines xs) \<Longrightarrow> newline \<notin> set l"
  by (induction xs arbitrary: l) (auto split: list.splits if_splits)

lemma lines_single: "newline \<notin> set l \<Longrightarrow> lines l = [l]"
  by (induction l) auto

lemma search_lines:
  assumes h1: "\<And>p xs. run re (p, xs) \<noteq> [] \<Longrightarrow> p = None \<or> p = Some newline"
    and h2: "\<And>p xs. p = None \<or> p = Some newline \<Longrightarrow>
               (run re (p, xs) \<noteq> []) = (run re (None, takeWhile (\<lambda>c. c \<noteq> newline) xs) \<noteq> [])"
  shows "search re p xs \<longleftrightarrow>
           ((p = None \<or> p = Some newline) \<and> run re (None, hd (lines xs)) \<noteq> []) \<or>
           (\<exists>l \<in> set (tl (lines xs)). run re (None, l) \<noteq> [])"
proof (induction xs arbitrary: p)
  case Nil
  show ?case using h1 [of p "[]"] h2 [of p "[]"] by auto
next
  case (Cons c rest)
  have a: "run re (p, c # rest) \<noteq> [] \<longleftrightarrow>
           (p = None \<or> p = Some newline) \<and> run re (None, hd (lines (c # rest))) \<noteq> []"
    using h1 [of p "c # rest"] h2 [of p "c # rest"] unfolding hd_lines by blast
  obtain l ls where ls: "lines rest = l # ls"
    using lines_nonempty [of rest] by (cases "lines rest") auto
  show ?case
  proof (cases "c = newline")
    case True
    then show ?thesis
      using a Cons.IH [of "Some c"] ls by auto
  next
    case False
    then show ?thesis
      using a Cons.IH [of "Some c"] ls by auto
  qed
qed

lemma MatchString_lines:
  assumes h1: "\<And>p xs. run re (p, xs) \<noteq> [] \<Longrightarrow> p = None \<or> p = Some newline"
    and h2: "\<And>p xs. p = None \<or> p = Some newline \<Longrightarrow>
               (run re (p, xs) \<noteq> []) = (run re (None, takeWhile (\<lambda>c. c \<noteq> newline) xs) \<noteq> [])"
  shows "MatchString re body = some_line_matches re body"
proof -
  have s: "search re None xs \<longleftrightarrow> (\<exists>l \<in> set (lines xs). run re (None, l) \<noteq> [])" for xs
  proof -
    obtain l ls where ls: "lines xs = l # ls"
      using lines_nonempty [of xs] by (cases "lines xs") auto
    show ?thesis using search_lines [of re None xs, OF h1 h2] ls by auto
  qed
  have "MatchString re l \<longleftrightarrow> run re (None, l) \<noteq> []" if "l \<in> set (lines body)" for l
    using s [of l] lines_single [OF lines_no_newline [OF that]] by (simp add: MatchString_def)
  then show ?thesis
    using s [of body] by (auto simp: MatchString_def some_line_matches_def)
qed


lemma prefix_takeWhile:
  "\<forall>c \<in> set s. P c \<Longrightarrow> prefix s (takeWhile P xs) = prefix s xs"
proof (induction s arbitrary: xs)
  case Nil
  then show ?case by simp
next
  case (Cons a s)
  then show ?case by (cases xs) auto
qed

lemma drop_takeWhile_prefix:
  "prefix s xs \<Longrightarrow> \<forall>c \<in> set s. P c \<Longrightarrow>
   drop (length s) (takeWhile P xs) = takeWhile P (drop (length s) xs)"
  by (auto simp: prefix_def)

text \<open>What a star of a character class reaches: the text with some of its leading
  characters of the class dropped.\<close>

lemma star_iter_CharClass:
  "snd ` set (star_iter n (run (CharClass cs)) (q, ys)) =
     {drop k ys | k. k \<le> n \<and> k \<le> length (takeWhile (\<lambda>c. c \<in> set cs) ys)}"
proof (induction n arbitrary: q ys)
  case 0
  then show ?case by auto
next
  case (Suc n)
  show ?case
  proof (cases ys)
    case Nil
    then show ?thesis by auto
  next
    case (Cons c rest)
    show ?thesis
    proof (cases "c \<in> set cs")
      case False
      with Cons show ?thesis by auto
    next
      case True
      have "snd ` set (star_iter (Suc n) (run (CharClass cs)) (q, ys)) =
              insert ys (snd ` set (star_iter n (run (CharClass cs)) (Some c, rest)))"
        using Cons True by simp
      also have "\<dots> = insert ys {drop k rest | k. k \<le> n \<and>
                            k \<le> length (takeWhile (\<lambda>c. c \<in> set cs) rest)}"
        by (simp only: Suc.IH)
      also have "\<dots> = {drop k ys | k. k \<le> Suc n \<and>
                            k \<le> length (takeWhile (\<lambda>c. c \<in> set cs) ys)}"
      proof (intro set_eqI iffI)
        fix zs
        assume "zs \<in> insert ys {drop k rest | k. k \<le> n \<and>
                            k \<le> length (takeWhile (\<lambda>c. c \<in> set cs) rest)}"
        then consider "zs = ys" | k where "zs = drop k rest" "k \<le> n"
            "k \<le> length (takeWhile (\<lambda>c. c \<in> set cs) rest)"
          by auto
        then show "zs \<in> {drop k ys | k. k \<le> Suc n \<and>
                            k \<le> length (takeWhile (\<lambda>c. c \<in> set cs) ys)}"
        proof cases
          case 1
          then have "zs = drop 0 ys" by simp
          then show ?thesis by blast
        next
          case 2
          then have "zs = drop (Suc k) ys \<and> Suc k \<le> Suc n \<and>
                     Suc k \<le> length (takeWhile (\<lambda>c. c \<in> set cs) ys)"
            using Cons True by simp
          then show ?thesis by blast
        qed
      next
        fix zs
        assume "zs \<in> {drop k ys | k. k \<le> Suc n \<and>
                            k \<le> length (takeWhile (\<lambda>c. c \<in> set cs) ys)}"
        then obtain k where k: "zs = drop k ys" "k \<le> Suc n"
            "k \<le> length (takeWhile (\<lambda>c. c \<in> set cs) ys)"
          by auto
        show "zs \<in> insert ys {drop k rest | k. k \<le> n \<and>
                            k \<le> length (takeWhile (\<lambda>c. c \<in> set cs) rest)}"
        proof (cases k)
          case 0
          with k show ?thesis by simp
        next
          case (Suc k')
          with k Cons True have "zs = drop k' rest \<and> k' \<le> n \<and>
                 k' \<le> length (takeWhile (\<lambda>c. c \<in> set cs) rest)"
            by simp
          then show ?thesis by blast
        qed
      qed
      finally show ?thesis .
    qed
  qed
qed

lemma run_Concat_nonempty:
  "run (Concat a b) pos \<noteq> [] \<longleftrightarrow> (\<exists>pos' \<in> set (run a pos). run b pos' \<noteq> [])"
  by auto

lemma run_EndLine_nonempty:
  "run EndLine pos \<noteq> [] \<longleftrightarrow> snd pos = [] \<or> hd (snd pos) = newline"
  by (cases pos; cases "snd pos") auto

lemma run_Star: "run (Star a) (q, ys) = star_iter (length ys) (run a) (q, ys)"
  by simp

lemma newline_whitespace: "newline \<in> set whitespace"
  by (simp add: newline_def whitespace_def)

lemma skip_whitespace:
  "(\<exists>k \<le> length (takeWhile (\<lambda>c. c \<in> set whitespace) ys).
      drop k ys = [] \<or> hd (drop k ys) = newline) \<longleftrightarrow>
   (dropWhile (\<lambda>c. c \<in> set whitespace \<and> c \<noteq> newline) ys = [] \<or>
    hd (dropWhile (\<lambda>c. c \<in> set whitespace \<and> c \<noteq> newline) ys) = newline)"
proof (induction ys)
  case Nil
  then show ?case by simp
next
  case (Cons c cs)
  show ?case
  proof (cases "c = newline")
    case True
    then have "drop 0 (c # cs) = [] \<or> hd (drop 0 (c # cs)) = newline" by simp
    then have "\<exists>k \<le> length (takeWhile (\<lambda>c. c \<in> set whitespace) (c # cs)).
      drop k (c # cs) = [] \<or> hd (drop k (c # cs)) = newline"
      by blast
    with True show ?thesis by simp
  next
    case False
    show ?thesis
    proof (cases "c \<in> set whitespace")
      case True
      have "(\<exists>k \<le> length (takeWhile (\<lambda>c. c \<in> set whitespace) (c # cs)).
              drop k (c # cs) = [] \<or> hd (drop k (c # cs)) = newline) \<longleftrightarrow>
            (\<exists>k \<le> length (takeWhile (\<lambda>c. c \<in> set whitespace) cs).
              drop k cs = [] \<or> hd (drop k cs) = newline)"
        (is "?L \<longleftrightarrow> ?R")
      proof
        assume ?L
        then obtain k where k: "k \<le> length (takeWhile (\<lambda>c. c \<in> set whitespace) (c # cs))"
          "drop k (c # cs) = [] \<or> hd (drop k (c # cs)) = newline"
          by blast
        with False obtain k' where "k = Suc k'" by (cases k) auto
        with k True show ?R by auto
      next
        assume ?R
        then obtain k where k: "k \<le> length (takeWhile (\<lambda>c. c \<in> set whitespace) cs)"
          "drop k cs = [] \<or> hd (drop k cs) = newline"
          by blast
        with True have "Suc k \<le> length (takeWhile (\<lambda>c. c \<in> set whitespace) (c # cs)) \<and>
          (drop (Suc k) (c # cs) = [] \<or> hd (drop (Suc k) (c # cs)) = newline)"
          by simp
        then show ?L by blast
      qed
      with Cons.IH True False show ?thesis by simp
    next
      case nw: False
      with False show ?thesis by simp
    qed
  qed
qed

lemma run_whitespace_eol:
  "run (Concat (Star (CharClass whitespace)) EndLine) (q, ys) \<noteq> [] \<longleftrightarrow>
     (dropWhile (\<lambda>c. c \<in> set whitespace \<and> c \<noteq> newline) ys = [] \<or>
      hd (dropWhile (\<lambda>c. c \<in> set whitespace \<and> c \<noteq> newline) ys) = newline)"
proof -
  let ?reached = "snd ` set (star_iter (length ys) (run (CharClass whitespace)) (q, ys))"
  have "run (Concat (Star (CharClass whitespace)) EndLine) (q, ys) \<noteq> [] \<longleftrightarrow>
        (\<exists>pos' \<in> set (star_iter (length ys) (run (CharClass whitespace)) (q, ys)).
           snd pos' = [] \<or> hd (snd pos') = newline)"
    by (simp only: run_Concat_nonempty run_Star run_EndLine_nonempty)
  also have "\<dots> \<longleftrightarrow> (\<exists>zs \<in> ?reached. zs = [] \<or> hd zs = newline)"
    by (simp only: bex_simps)
  also have "\<dots> \<longleftrightarrow> (\<exists>k \<le> length (takeWhile (\<lambda>c. c \<in> set whitespace) ys).
      drop k ys = [] \<or> hd (drop k ys) = newline)"
  proof -
    have le: "length (takeWhile (\<lambda>c. c \<in> set whitespace) ys) \<le> length ys"
      by (rule length_takeWhile_le)
    have r: "?reached = {drop k ys | k. k \<le> length (takeWhile (\<lambda>c. c \<in> set whitespace) ys)}"
      unfolding star_iter_CharClass using le by (intro set_eqI iffI; clarify; fastforce)
    show ?thesis unfolding r by blast
  qed
  finally show ?thesis unfolding skip_whitespace .
qed

lemma eol_takeWhile:
  "(dropWhile (\<lambda>c. c \<in> set whitespace \<and> c \<noteq> newline) (takeWhile (\<lambda>c. c \<noteq> newline) ys) = [] \<or>
    hd (dropWhile (\<lambda>c. c \<in> set whitespace \<and> c \<noteq> newline) (takeWhile (\<lambda>c. c \<noteq> newline) ys)) = newline)
   \<longleftrightarrow>
   (dropWhile (\<lambda>c. c \<in> set whitespace \<and> c \<noteq> newline) ys = [] \<or>
    hd (dropWhile (\<lambda>c. c \<in> set whitespace \<and> c \<noteq> newline) ys) = newline)"
  by (induction ys) auto

lemma run_whitespace_eol_line:
  "run (Concat (Star (CharClass whitespace)) EndLine) (q, ys) \<noteq> [] \<longleftrightarrow>
   run (Concat (Star (CharClass whitespace)) EndLine) (q', takeWhile (\<lambda>c. c \<noteq> newline) ys) \<noteq> []"
  unfolding run_whitespace_eol eol_takeWhile ..


lemma star_iter_nonempty: "star_iter n step pos \<noteq> []"
  by (cases n) simp_all

lemma run_test_all_tail:
  "run (Alternate EndLine (Concat (CharClass whitespace) (Star AnyCharNotNL))) (q, zs) \<noteq> [] \<longleftrightarrow>
     zs = [] \<or> hd zs \<in> set whitespace"
proof (cases zs)
  case Nil
  then show ?thesis by simp
next
  case (Cons c rest)
  have "run (Concat (CharClass whitespace) (Star AnyCharNotNL)) (q, c # rest) \<noteq> [] \<longleftrightarrow>
          c \<in> set whitespace"
    by (simp add: star_iter_nonempty)
  moreover have "run EndLine (q, c # rest) \<noteq> [] \<longleftrightarrow> c = newline"
    by simp
  ultimately show ?thesis
    using Cons newline_whitespace by auto
qed

lemma run_test_all_rest:
  "run (Concat (Quest (Literal '',''))
          (Alternate EndLine (Concat (CharClass whitespace) (Star AnyCharNotNL)))) (q, ys) \<noteq> [] \<longleftrightarrow>
     (prefix '','' ys \<and> (drop 1 ys = [] \<or> hd (drop 1 ys) \<in> set whitespace)) \<or>
     (ys = [] \<or> hd ys \<in> set whitespace)"
proof -
  have q: "set (run (Quest (Literal '','')) (q, ys)) =
             (if prefix '','' ys then {(Some CHR '','', drop 1 ys), (q, ys)} else {(q, ys)})"
    by auto
  show ?thesis
  proof (cases "prefix '','' ys")
    case True
    then show ?thesis
      unfolding run_Concat_nonempty q
      by (simp only: if_True bex_simps run_test_all_tail) blast
  next
    case False
    then show ?thesis
      unfolding run_Concat_nonempty q
      by (simp only: if_False bex_simps run_test_all_tail) blast
  qed
qed

lemma run_test_all_rest_line:
  "run (Concat (Quest (Literal '',''))
          (Alternate EndLine (Concat (CharClass whitespace) (Star AnyCharNotNL)))) (q, ys) \<noteq> [] \<longleftrightarrow>
   run (Concat (Quest (Literal '',''))
          (Alternate EndLine (Concat (CharClass whitespace) (Star AnyCharNotNL))))
       (q', takeWhile (\<lambda>c. c \<noteq> newline) ys) \<noteq> []"
proof -
  have a: "(takeWhile (\<lambda>c. c \<noteq> newline) zs = [] \<or>
            hd (takeWhile (\<lambda>c. c \<noteq> newline) zs) \<in> set whitespace) \<longleftrightarrow>
           (zs = [] \<or> hd zs \<in> set whitespace)" for zs
    using newline_whitespace by (cases zs) auto
  have c: "CHR '','' \<noteq> newline" by (simp add: newline_def)
  have p: "prefix '','' (takeWhile (\<lambda>c. c \<noteq> newline) ys) = prefix '','' ys"
    using c by (simp add: prefix_takeWhile)
  have d: "drop 1 (takeWhile (\<lambda>c. c \<noteq> newline) ys) = takeWhile (\<lambda>c. c \<noteq> newline) (drop 1 ys)"
    if "prefix '','' ys"
    using drop_takeWhile_prefix [OF that, of "\<lambda>c. c \<noteq> newline"] c by simp
  show ?thesis
    unfolding run_test_all_rest p using a [of ys] a [of "drop 1 ys"] d by auto
qed

text \<open>A pattern \<open>^literal rest\<close>, where the literal has no newline and whether \<open>rest\<close>
  matches depends on the remainder of the line only.\<close>

lemma run_BeginLine_Literal:
  "run (Concat BeginLine (Concat (Literal s) r)) (p, xs) \<noteq> [] \<longleftrightarrow>
     (p = None \<or> p = Some newline) \<and> prefix s xs \<and>
     run r (if s = [] then p else Some (last s), drop (length s) xs) \<noteq> []"
  by auto

lemma line_pattern:
  assumes s: "\<forall>c \<in> set s. c \<noteq> newline" "s \<noteq> []"
    and r: "\<And>q q' ys. (run r (q, ys) \<noteq> []) = (run r (q', takeWhile (\<lambda>c. c \<noteq> newline) ys) \<noteq> [])"
  shows "MatchString (Concat BeginLine (Concat (Literal s) r)) body =
         some_line_matches (Concat BeginLine (Concat (Literal s) r)) body"
proof (rule MatchString_lines)
  fix p xs
  assume "run (Concat BeginLine (Concat (Literal s) r)) (p, xs) \<noteq> []"
  then show "p = None \<or> p = Some newline"
    unfolding run_BeginLine_Literal by blast
next
  fix p :: "char option" and xs
  assume p: "p = None \<or> p = Some newline"
  have d: "drop (length s) (takeWhile (\<lambda>c. c \<noteq> newline) xs) =
           takeWhile (\<lambda>c. c \<noteq> newline) (drop (length s) xs)" if "prefix s xs"
    using drop_takeWhile_prefix [OF that s(1)] .
  show "(run (Concat BeginLine (Concat (Literal s) r)) (p, xs) \<noteq> []) =
        (run (Concat BeginLine (Concat (Literal s) r))
           (None, takeWhile (\<lambda>c. c \<noteq> newline) xs) \<noteq> [])"
    unfolding run_BeginLine_Literal prefix_takeWhile [OF s(1)]
    using p s(2) d r [of "Some (last s)" "drop (length s) xs" "Some (last s)"]
    by auto
qed

lemma RetestRe_lines: "MatchString RetestRe body = some_line_matches RetestRe body"
  unfolding RetestRe_def
proof (rule line_pattern)
  show "\<forall>c \<in> set ''/retest''. c \<noteq> newline" by (simp add: newline_def)
  show "''/retest'' \<noteq> []" by simp
qed (rule run_whitespace_eol_line)

lemma RetestRequiredRe_lines:
  "MatchString RetestRequiredRe body = some_line_matches RetestRequiredRe body"
  unfolding RetestRequiredRe_def
proof (rule line_pattern)
  show "\<forall>c \<in> set ''/retest-required''. c \<noteq> newline" by (simp add: newline_def)
  show "''/retest-required'' \<noteq> []" by simp
qed (rule run_whitespace_eol_line)

lemma OkToTestRe_lines: "MatchString OkToTestRe body = some_line_matches OkToTestRe body"
  unfolding OkToTestRe_def
proof (rule line_pattern)
  show "\<forall>c \<in> set ''/ok-to-test''. c \<noteq> newline" by (simp add: newline_def)
  show "''/ok-to-test'' \<noteq> []" by simp
qed (rule run_whitespace_eol_line)

lemma TestAllRe_lines: "MatchString TestAllRe body = some_line_matches TestAllRe body"
  unfolding TestAllRe_def
proof (rule line_pattern)
  show "\<forall>c \<in> set ''/test all''. c \<noteq> newline" by (simp add: newline_def)
  show "''/test all'' \<noteq> []" by simp
qed (rule run_test_all_rest_line)

section \<open>PresubmitFilter\<close>

lemma retest_body_matches:
  "MatchString RetestRe ''/retest''" "\<not> MatchString RetestRequiredRe ''/retest''"
  "\<not> MatchString OkToTestRe ''/retest''" "\<not> MatchString TestAllRe ''/retest''"
  by (simp_all add: pattern_defs)

lemma test_all_body_matches:
  "\<not> MatchString RetestRe ''/test all''" "\<not> MatchString RetestRequiredRe ''/test all''"
  "\<not> MatchString OkToTestRe ''/test all''" "MatchString TestAllRe ''/test all''"
  by (simp_all add: pattern_defs)

lemma retest_both_body_matches:
  "MatchString RetestRe retest_both_body" "MatchString RetestRequiredRe retest_both_body"
  "\<not> MatchString OkToTestRe retest_both_body" "\<not> MatchString TestAllRe retest_both_body"
  by (simp_all add: pattern_defs retest_both_body_def)

lemmas body_matches = retest_body_matches test_all_body_matches retest_both_body_matches

text \<open>
  C8, as stated, fails: on a comment in which both the \<open>/retest\<close> line and the
  \<open>/retest-required\<close> line match, \<open>contextGetter\<close> is called twice.
\<close>

theorem PresubmitFilter_two_calls_counterexample:
  "MatchString RetestRe retest_both_body \<and> MatchString RetestRequiredRe retest_both_body \<and>
   snd (snd (PresubmitFilter False (countingGetter {} {}) retest_both_body ([], 0)
          :: (unit Filter option \<times> error option) \<times> logger \<times> nat)) = 2"
  by (simp add: PresubmitFilter_defs body_matches countingGetter_def)

text \<open>
  C8, amended. \<open>PresubmitFilter\<close> calls \<open>contextGetter\<close> only when the body matches a
  retest pattern: not at all when neither the \<open>/retest\<close> pattern nor the
  \<open>/retest-required\<close> pattern matches, once when exactly one of them matches, and, when
  both match, once for \<open>RetestFilter\<close> and, if that call returned no error, a second
  time for \<open>RetestRequiredFilter\<close>. The world \<open>w'\<close> left by \<open>PresubmitFilter\<close> is
  the world after that many calls.
\<close>

theorem PresubmitFilter_contextGetter_calls:
  assumes "PresubmitFilter h cg body (lg, w) = (res, (lg', w'))"
  shows "(\<not> MatchString RetestRe body \<and> \<not> MatchString RetestRequiredRe body \<longrightarrow> w' = w) \<and>
         (MatchString RetestRe body \<and> \<not> MatchString RetestRequiredRe body \<longrightarrow> w' = snd (cg w)) \<and>
         (\<not> MatchString RetestRe body \<and> MatchString RetestRequiredRe body \<longrightarrow> w' = snd (cg w)) \<and>
         (MatchString RetestRe body \<and> MatchString RetestRequiredRe body \<longrightarrow>
            w' = (if snd (snd (fst (cg w))) = None then snd (cg (snd (cg w))) else snd (cg w)))"
  using assms
  by (auto simp: PresubmitFilter_defs split: prod.splits option.splits if_splits)

theorem PresubmitFilter_contextGetter_calls_witness:
  "\<not> MatchString RetestRe ''/test all'' \<and> \<not> MatchString RetestRequiredRe ''/test all'' \<and>
   snd (snd (PresubmitFilter False (countingGetter {} {}) ''/test all'' ([], 0)
          :: (unit Filter option \<times> error option) \<times> logger \<times> nat)) = 0 \<and>
   MatchString RetestRe ''/retest'' \<and> \<not> MatchString RetestRequiredRe ''/retest'' \<and>
   snd (snd (PresubmitFilter False (countingGetter {} {}) ''/retest'' ([], 0)
          :: (unit Filter option \<times> error option) \<times> logger \<times> nat)) = 1 \<and>
   MatchString RetestRe retest_both_body \<and> MatchString RetestRequiredRe retest_both_body \<and>
   snd (snd (fst (countingGetter {} {} 0))) = None \<and>
   snd (snd (PresubmitFilter False (countingGetter {} {}) retest_both_body ([], 0)
          :: (unit Filter option \<times> error option) \<times> logger \<times> nat)) = 2 \<and>
   snd (snd (PresubmitFilter False failingGetter retest_both_body ([], 0)
          :: (unit Filter option \<times> error option) \<times> logger \<times> nat)) = 1"
  using PresubmitFilter_contextGetter_calls
    [of False "countingGetter {} {}" retest_both_body "[]" 0
        "fst (PresubmitFilter False (countingGetter {} {}) retest_both_body ([], 0)) :: unit Filter option \<times> error option"
        "fst (snd (PresubmitFilter False (countingGetter {} {}) retest_both_body ([], 0)
           :: (unit Filter option \<times> error option) \<times> logger \<times> nat))"
        "snd (snd (PresubmitFilter False (countingGetter {} {}) retest_both_body ([], 0)
           :: (unit Filter option \<times> error option) \<times> logger \<times> nat))"]
  by (simp add: PresubmitFilter_defs body_matches countingGetter_def failingGetter_def)


lemmas pattern_lines =
  RetestRe_lines RetestRequiredRe_lines OkToTestRe_lines TestAllRe_lines

lemma AggregateFilter_CommandFilter_first:
  "TriggerMatches p body \<Longrightarrow> AggregateFilter (CommandFilter body # filters) p = (True, True, True)"
  by (simp add: CommandFilter_def)

text \<open>
  C4. When \<open>PresubmitFilter\<close> returns a filter, it is the aggregate of this chain, in
  this order: \<open>CommandFilter body\<close> first; then \<open>RetestFilter\<close> on the sets that
  \<open>contextGetter\<close> returned, iff some line of the body matches \<open>^/retest\s*$\<close>; then
  \<open>RetestRequiredFilter\<close> on the sets that \<open>contextGetter\<close> returned (called in the
  world the first call left, when there was one), iff some line matches
  \<open>^/retest-required\s*$\<close>; then \<open>TestAllFilter\<close>, iff \<open>honorOkToTest\<close> holds and some
  line matches \<open>^/ok-to-test\s*$\<close>, or some line matches \<open>^/test all,?($|\s.*)\<close>. A
  presubmit whose own trigger matches the body gets the tuple of \<open>CommandFilter\<close>,
  (true, true, true), whatever else is in the chain.
\<close>

theorem PresubmitFilter_chain:
  assumes "PresubmitFilter h cg body (lg, w) = ((flt, None), (lg', w'))"
  shows "flt = Some (AggregateFilter
            ([CommandFilter body] @
             (if some_line_matches RetestRe body
              then [RetestFilter (fst (fst (cg w))) (fst (snd (fst (cg w))))] else []) @
             (if some_line_matches RetestRequiredRe body
              then [RetestRequiredFilter
                      (fst (fst (cg (if some_line_matches RetestRe body then snd (cg w) else w))))
                      (fst (snd (fst (cg (if some_line_matches RetestRe body then snd (cg w) else w)))))]
              else []) @
             (if (h \<and> some_line_matches OkToTestRe body) \<or> some_line_matches TestAllRe body
              then [TestAllFilter] else []))) \<and>
         (TriggerMatches p body \<longrightarrow> (\<exists>f. flt = Some f \<and> f p = (True, True, True)))"
proof -
  have chain: "flt = Some (AggregateFilter
            ([CommandFilter body] @
             (if MatchString RetestRe body
              then [RetestFilter (fst (fst (cg w))) (fst (snd (fst (cg w))))] else []) @
             (if MatchString RetestRequiredRe body
              then [RetestRequiredFilter
                      (fst (fst (cg (if MatchString RetestRe body then snd (cg w) else w))))
                      (fst (snd (fst (cg (if MatchString RetestRe body then snd (cg w) else w)))))]
              else []) @
             (if (h \<and> MatchString OkToTestRe body) \<or> MatchString TestAllRe body
              then [TestAllFilter] else [])))"
    using assms
    by (auto simp: PresubmitFilter_defs split: prod.splits option.splits if_splits)
  then obtain filters where f: "flt = Some (AggregateFilter (CommandFilter body # filters))"
    by simp
  have "TriggerMatches p body \<longrightarrow> (\<exists>f. flt = Some f \<and> f p = (True, True, True))"
    unfolding f using AggregateFilter_CommandFilter_first [of p body filters] by simp
  with chain show ?thesis
    unfolding pattern_lines by blast
qed


theorem PresubmitFilter_chain_witness:
  "PresubmitFilter True (countingGetter {} {}) ''/test all'' ([], 0) =
     ((Some (AggregateFilter [CommandFilter ''/test all'', TestAllFilter]), None),
      ([Entry DebugLevel [] ''Using test-all filter.''], 0)) \<and>
   TriggerMatches all_job ''/test all'' \<and>
   TestAllFilter all_job = (False, False, False) \<and>
   AggregateFilter [CommandFilter ''/test all'', TestAllFilter] all_job = (True, True, True) \<and>
   PresubmitFilter False (countingGetter {''ci/unit''} {''ci/unit'', ''ci/lint''}) ''/retest'' ([], 0) =
     ((Some (AggregateFilter
               [CommandFilter ''/retest'', RetestFilter {''ci/unit''} {''ci/unit'', ''ci/lint''}]),
       None),
      ([Entry InfoLevel [] ''Using retest filter.''], 1)) \<and>
   fst (FilterPresubmits
          (AggregateFilter
             [CommandFilter ''/retest'', RetestFilter {''ci/unit''} {''ci/unit'', ''ci/lint''}])
          () ''main'' [unit_job, lint_job, e2e_job] []) = ([unit_job], None)"
  using PresubmitFilter_chain
    [of True "countingGetter {} {}" "''/test all''" "[]" 0
        "Some (AggregateFilter [CommandFilter ''/test all'', TestAllFilter])"
        "[Entry DebugLevel [] ''Using test-all filter.'']" 0 all_job]
  by (simp add: PresubmitFilter_defs body_matches countingGetter_def all_job_def
      FilterPresubmits_def CommandFilter_def RetestFilter_def verdict_defs jobs_defs)

end
